theory Spec2Isabelle
  imports Main "HOL-Library.Word"
begin

unbundle bit_operations_syntax

section \<open>The Tangier pin multiplexer (arch/x86/cpu/tangier/pinmux.c)\<close>

text \<open>
  The driver runs on a 32-bit x86 core: \<open>unsigned int\<close>, \<open>u32\<close>, \<open>size_t\<close> and
  \<open>void __iomem *\<close> are all 32 bits wide (the source itself casts the register
  pointer to \<open>u32\<close>). They are modelled as \<open>32 word\<close>, so \<open>+\<close>, \<open>-\<close> and \<open>*\<close>
  wrap as the C does. A signed \<open>int\<close> that only travels (the two device-tree
  cells) is kept as its 32-bit two's complement pattern: \<open>-1\<close> is the word of
  all ones, and the conversions \<open>int \<rightarrow> unsigned int\<close> and \<open>int \<rightarrow> u32\<close> that C
  performs at the calls are the identity on that pattern. Return codes are
  only compared with zero and are modelled as \<open>int\<close>. The null pointer is the
  address \<open>0\<close>.
\<close>

type_synonym u32 = "32 word"
type_synonym s32 = "32 word"
type_synonym iomem = "32 word"

subsection \<open>Constants and the family table\<close>

definition BUFCFG_OFFSET :: u32 where
  "BUFCFG_OFFSET = 0x100"

definition MRFLD_FAMILY_LEN :: u32 where
  "MRFLD_FAMILY_LEN = 0x400"

definition MRFLD_PINMODE_MASK :: u32 where
  "MRFLD_PINMODE_MASK = 0x07"

text \<open>
  The two error numbers come from the errno header, which is not part of the
  driver; the driver only relies on their being non-zero and different.
\<close>

definition EINVAL :: int where
  "EINVAL = 22"

definition ENOTSUPP :: int where
  "ENOTSUPP = 524"

record mrfld_family =
  family_number :: u32
  pin_base :: u32
  npins :: u32
  regs :: iomem

definition pin_to_bufno :: "mrfld_family \<Rightarrow> u32 \<Rightarrow> u32" where
  "pin_to_bufno f p = p - pin_base f"

text \<open>
  The initialiser macro \<open>MRFLD_FAMILY(b, s, e)\<close>: family number, first pin and
  last pin; the pin count is \<open>e - s + 1\<close>. The field \<open>regs\<close> is not named by the
  macro and starts as the null pointer.
\<close>

definition MRFLD_FAMILY :: "u32 \<Rightarrow> u32 \<Rightarrow> u32 \<Rightarrow> mrfld_family" where
  "MRFLD_FAMILY b s e =
     \<lparr>family_number = b, pin_base = s, npins = e - s + 1, regs = 0\<rparr>"

definition mrfld_families :: "mrfld_family list" where
  "mrfld_families = [MRFLD_FAMILY 3 37 56, MRFLD_FAMILY 7 101 114]"

record mrfld_pinctrl =
  families :: "mrfld_family list"
  nfamilies :: u32

subsection \<open>Hardware, console and the external collaborators\<close>

datatype ipc_cmd = IPCMSG_INDIRECT_WRITE

text \<open>
  What the driver does on the bus, in order: a 32-bit load, a 32-bit store
  (value first, as \<open>writel(v, addr)\<close>), or a raw request to the SCU with its
  command, sub-command, input word, input length, output length, destination
  pointer and source pointer.
\<close>

datatype bus_access =
    Readl iomem
  | Writel u32 iomem
  | ScuIpc ipc_cmd u32 u32 nat nat u32 u32

text \<open>The three \<open>pr_err\<close> messages of the driver, with their arguments.\<close>

datatype log_msg =
    NoFamily u32
  | SetModeFailed u32 int
  | InvalidPinCfg int

text \<open>
  The state the driver works on: the register file behind the memory-mapped
  region, the trace of bus accesses, the console, and the private data of the
  pin controller device (what \<open>dev_get_priv\<close> returns for it).
\<close>

record machine =
  mem :: "iomem \<Rightarrow> u32"
  bus :: "bus_access list"
  console :: "log_msg list"
  priv :: mrfld_pinctrl

text \<open>
  The collaborators the driver calls and does not define, as parameters:
  the base address \<open>syscon_get_first_range\<close> returns, the return code of
  \<open>syscon_get_by_driver_data\<close> (zero when the pin controller device is found;
  its private data is then \<open>priv\<close> of the state), and the answer of the SCU to
  an indirect write of a value to an address.
\<close>

record env =
  syscon_first_range :: iomem
  syscon_ret :: int
  scu_ret :: "iomem \<Rightarrow> u32 \<Rightarrow> int"

definition pr_err :: "log_msg \<Rightarrow> machine \<Rightarrow> machine" where
  "pr_err m s = s\<lparr>console := console s @ [m]\<rparr>"

definition readl :: "iomem \<Rightarrow> machine \<Rightarrow> u32 \<times> machine" where
  "readl addr s = (mem s addr, s\<lparr>bus := bus s @ [Readl addr]\<rparr>)"

definition writel :: "u32 \<Rightarrow> iomem \<Rightarrow> machine \<Rightarrow> machine" where
  "writel v addr s = s\<lparr>mem := (mem s)(addr := v), bus := bus s @ [Writel v addr]\<rparr>"

text \<open>
  Modelled from the spec: \<open>scu_ipc_raw_command\<close> is not in the driver's file.
  The request goes to the privileged channel, which answers with a return
  code; on success (zero) the coprocessor has performed the store of the
  input word at the destination address on the caller's behalf.
\<close>

definition scu_ipc_raw_command ::
  "env \<Rightarrow> ipc_cmd \<Rightarrow> u32 \<Rightarrow> u32 \<Rightarrow> nat \<Rightarrow> nat \<Rightarrow> u32 \<Rightarrow> u32 \<Rightarrow> machine \<Rightarrow> int \<times> machine" where
  "scu_ipc_raw_command e cmd sub v inlen outlen dptr sptr s =
     (let r = scu_ret e dptr v;
          s' = s\<lparr>bus := bus s @ [ScuIpc cmd sub v inlen outlen dptr sptr]\<rparr>
      in (r, if r = 0 then s'\<lparr>mem := (mem s')(dptr := v)\<rparr> else s'))"

subsection \<open>Configuration records\<close>

text \<open>
  One sub-node of the controller's device-tree node: its offset in the tree
  and the three recognised fields, each present or absent.
\<close>

record ofnode =
  of_offset :: int
  prop_pad_offset :: "s32 option"
  prop_mode_func :: "s32 option"
  prop_protected :: "bool option"

text \<open>
  Modelled from the spec: \<open>ofnode_read_s32_default\<close> is not in the driver's
  file. It yields the integer field when the record has it and the caller's
  default otherwise.
\<close>

definition ofnode_read_s32_default :: "s32 option \<Rightarrow> s32 \<Rightarrow> s32" where
  "ofnode_read_s32_default field dflt = (case field of None \<Rightarrow> dflt | Some v \<Rightarrow> v)"

text \<open>
  Modelled from the spec: \<open>ofnode_read_bool\<close> is not in the driver's file.
  The field is an optional boolean that counts as false when absent.
\<close>

definition ofnode_read_bool :: "bool option \<Rightarrow> bool" where
  "ofnode_read_bool field = (case field of None \<Rightarrow> False | Some b \<Rightarrow> b)"

subsection \<open>Family lookup and register address\<close>

text \<open>
  The scan of \<open>mrfld_get_family\<close> over the first \<open>nfamilies\<close> entries, in table
  order; the comparison \<open>pin < pin_base + npins\<close> is on 32-bit unsigned values.
\<close>

fun mrfld_get_family_loop :: "mrfld_family list \<Rightarrow> u32 \<Rightarrow> mrfld_family option" where
  "mrfld_get_family_loop [] pin = None"
| "mrfld_get_family_loop (family # rest) pin =
     (if pin \<ge> pin_base family \<and> pin < pin_base family + npins family
      then Some family
      else mrfld_get_family_loop rest pin)"

text \<open>
  The controller's \<open>nfamilies\<close> is the length of its table wherever the driver
  builds it; a larger count would make the C read past the array, which the
  model does not follow (it stops at the end of the list).
\<close>

definition mrfld_get_family ::
  "mrfld_pinctrl \<Rightarrow> u32 \<Rightarrow> machine \<Rightarrow> mrfld_family option \<times> machine" where
  "mrfld_get_family mp pin s =
     (case mrfld_get_family_loop (take (unat (nfamilies mp)) (families mp)) pin of
        Some family \<Rightarrow> (Some family, s)
      | None \<Rightarrow> (None, pr_err (NoFamily pin) s))"

definition mrfld_get_bufcfg :: "mrfld_pinctrl \<Rightarrow> u32 \<Rightarrow> machine \<Rightarrow> iomem \<times> machine" where
  "mrfld_get_bufcfg pinctrl pin s =
     (case mrfld_get_family pinctrl pin s of
        (None, s') \<Rightarrow> (0, s')
      | (Some family, s') \<Rightarrow>
          (let bufno = pin_to_bufno family pin
           in (regs family + BUFCFG_OFFSET + bufno * 4, s')))"

fun mrfld_setup_families_loop :: "iomem \<Rightarrow> mrfld_family list \<Rightarrow> nat \<Rightarrow> mrfld_family list" where
  "mrfld_setup_families_loop base_addr [] n = []"
| "mrfld_setup_families_loop base_addr (family # rest) 0 = family # rest"
| "mrfld_setup_families_loop base_addr (family # rest) (Suc n) =
     family\<lparr>regs := base_addr + family_number family * MRFLD_FAMILY_LEN\<rparr>
       # mrfld_setup_families_loop base_addr rest n"

definition mrfld_setup_families :: "iomem \<Rightarrow> mrfld_family list \<Rightarrow> u32 \<Rightarrow> mrfld_family list" where
  "mrfld_setup_families base_addr fams nfam =
     mrfld_setup_families_loop base_addr fams (unat nfam)"

text \<open>
  \<open>mrfld_pinconfig_get_bufcfg\<close> returns a code and, when the code is zero, the
  address through its out-parameter: \<open>Inl\<close> carries a non-zero code, \<open>Inr\<close> the
  address.
\<close>

definition mrfld_pinconfig_get_bufcfg ::
  "env \<Rightarrow> u32 \<Rightarrow> machine \<Rightarrow> (int + iomem) \<times> machine" where
  "mrfld_pinconfig_get_bufcfg e pin s =
     (let ret = syscon_ret e in
      if ret \<noteq> 0 then (Inl ret, s)
      else
        (let pinctrl = priv s in
         case mrfld_get_bufcfg pinctrl pin s of
           (addr, s') \<Rightarrow> if addr = 0 then (Inl (- EINVAL), s') else (Inr addr, s')))"

subsection \<open>The two write paths\<close>

text \<open>
  The read-modify-write step. Its \<open>debug\<close> line prints only in a build with
  \<open>DEBUG\<close> defined and changes nothing; it is left out.
\<close>

definition mrfld_pinconfig_read_and_update ::
  "iomem \<Rightarrow> u32 \<Rightarrow> u32 \<Rightarrow> machine \<Rightarrow> u32 \<times> machine" where
  "mrfld_pinconfig_read_and_update bufcfg msk bits s =
     (case readl bufcfg s of
        (val, s') \<Rightarrow> ((val AND NOT msk) OR (bits AND msk), s'))"

definition mrfld_pinconfig_protected ::
  "env \<Rightarrow> u32 \<Rightarrow> u32 \<Rightarrow> u32 \<Rightarrow> machine \<Rightarrow> int \<times> machine" where
  "mrfld_pinconfig_protected e pin msk bits s =
     (case mrfld_pinconfig_get_bufcfg e pin s of
        (Inl ret, s1) \<Rightarrow> (ret, s1)
      | (Inr bufcfg, s1) \<Rightarrow>
          (case mrfld_pinconfig_read_and_update bufcfg msk bits s1 of
             (v, s2) \<Rightarrow> scu_ipc_raw_command e IPCMSG_INDIRECT_WRITE 0 v 4 0 bufcfg 0 s2))"

definition mrfld_pinconfig ::
  "env \<Rightarrow> u32 \<Rightarrow> u32 \<Rightarrow> u32 \<Rightarrow> machine \<Rightarrow> int \<times> machine" where
  "mrfld_pinconfig e pin msk bits s =
     (case mrfld_pinconfig_get_bufcfg e pin s of
        (Inl ret, s1) \<Rightarrow> (ret, s1)
      | (Inr bufcfg, s1) \<Rightarrow>
          (case mrfld_pinconfig_read_and_update bufcfg msk bits s1 of
             (v, s2) \<Rightarrow> (0, writel v bufcfg s2)))"

subsection \<open>One configuration entry, and the pass over all of them\<close>

definition mrfld_pinctrl_cfg_pin :: "env \<Rightarrow> ofnode \<Rightarrow> machine \<Rightarrow> int \<times> machine" where
  "mrfld_pinctrl_cfg_pin e pin_node s =
     (let pad_offset = ofnode_read_s32_default (prop_pad_offset pin_node) (- 1) in
      if pad_offset = - 1 then (- EINVAL, s)
      else
        (let mode = ofnode_read_s32_default (prop_mode_func pin_node) (- 1) in
         if mode = - 1 then (- EINVAL, s)
         else
           (let msk = MRFLD_PINMODE_MASK in
            if mode AND NOT msk \<noteq> 0 then (- ENOTSUPP, s)
            else
              (let is_protected = ofnode_read_bool (prop_protected pin_node) in
               case (if is_protected
                     then mrfld_pinconfig_protected e pad_offset msk mode s
                     else mrfld_pinconfig e pad_offset msk mode s) of
                 (ret, s') \<Rightarrow>
                   (ret, if ret \<noteq> 0 then pr_err (SetModeFailed pad_offset ret) s' else s')))))"

text \<open>
  One turn of \<open>ofnode_for_each_subnode\<close> in the probe: configure the pin and,
  on a non-zero code, print the message; the code is then dropped.
\<close>

definition probe_subnode :: "env \<Rightarrow> ofnode \<Rightarrow> machine \<Rightarrow> machine" where
  "probe_subnode e pin_node s =
     (case mrfld_pinctrl_cfg_pin e pin_node s of
        (ret, s') \<Rightarrow> if ret \<noteq> 0 then pr_err (InvalidPinCfg (of_offset pin_node)) s' else s')"

fun probe_subnodes :: "env \<Rightarrow> ofnode list \<Rightarrow> machine \<Rightarrow> machine" where
  "probe_subnodes e [] s = s"
| "probe_subnodes e (pin_node # rest) s = probe_subnodes e rest (probe_subnode e pin_node s)"

text \<open>
  The private data after the first three statements of the probe: the static
  table with every \<open>regs\<close> filled in, and its length (\<open>ARRAY_SIZE\<close>).
\<close>

definition probe_pinctrl :: "iomem \<Rightarrow> mrfld_pinctrl" where
  "probe_pinctrl base_addr =
     \<lparr>families = mrfld_setup_families base_addr mrfld_families (of_nat (length mrfld_families)),
      nfamilies = of_nat (length mrfld_families)\<rparr>"

definition tangier_pinctrl_probe :: "env \<Rightarrow> ofnode list \<Rightarrow> machine \<Rightarrow> int \<times> machine" where
  "tangier_pinctrl_probe e subnodes s =
     (let base_addr = syscon_first_range e;
          s1 = s\<lparr>priv := probe_pinctrl base_addr\<rparr>
      in (0, probe_subnodes e subnodes s1))"

subsection \<open>Reading the bus trace, and a sample board\<close>

fun is_store :: "bus_access \<Rightarrow> bool" where
  "is_store (Writel v addr) = True"
| "is_store _ = False"

fun is_ipc :: "bus_access \<Rightarrow> bool" where
  "is_ipc (ScuIpc cmd sub v inlen outlen dptr sptr) = True"
| "is_ipc _ = False"

text \<open>
  A board to evaluate the driver on: the pin controller's region at
  \<open>0xff0c0000\<close>, the device lookup succeeding, an SCU that accepts every
  request, every register reading \<open>0x12345678\<close>, nothing on the bus or the
  console yet, and private data that the probe has not filled in.
\<close>

definition sample_env :: env where
  "sample_env = \<lparr>syscon_first_range = 0xff0c0000, syscon_ret = 0, scu_ret = (\<lambda>dptr v. 0)\<rparr>"

definition sample_machine :: machine where
  "sample_machine =
     \<lparr>mem = (\<lambda>addr. 0x12345678), bus = [], console = [],
      priv = \<lparr>families = [], nfamilies = 0\<rparr>\<rparr>"

section \<open>Bit-level facts about the 3-bit mode field\<close>

lemma mode_split: "(m::u32) = (m AND 7) OR (m AND NOT 7)"
proof -
  have "m = m AND (7 OR NOT 7)" by simp
  then show ?thesis by (simp only: bit.conj_disj_distrib)
qed

lemma mode_and_7: "(m::u32) \<le> 7 \<Longrightarrow> m AND 7 = m"
proof -
  assume "m \<le> 7"
  then have "m < 2 ^ 3" by (simp add: word_less_nat_alt word_le_nat_alt)
  then have "m AND mask 3 = m" by (rule less_mask_eq)
  then show "m AND 7 = m" by (simp add: mask_eq_exp_minus_1)
qed

lemma mode_le_7_iff: "(m::u32) AND NOT 7 = 0 \<longleftrightarrow> m \<le> 7"
proof
  assume "m AND NOT 7 = 0"
  with mode_split [of m] have "m = m AND 7" by simp
  then show "m \<le> 7" by (metis word_and_le1)
next
  assume "m \<le> 7"
  then have "m AND 7 = m" by (rule mode_and_7)
  then have "m AND NOT 7 = (m AND 7) AND NOT 7" by simp
  also have "\<dots> = m AND (7 AND NOT 7)" by (simp only: and.assoc)
  finally show "m AND NOT 7 = 0" by simp
qed

section \<open>The family table as the probe builds it\<close>

lemma array_size_families: "(of_nat (length mrfld_families) :: u32) = 2"
  by (simp add: mrfld_families_def)

lemma setup_two:
  "mrfld_setup_families_loop base [a, b] 2 =
     [a\<lparr>regs := base + family_number a * MRFLD_FAMILY_LEN\<rparr>,
      b\<lparr>regs := base + family_number b * MRFLD_FAMILY_LEN\<rparr>]"
  by (simp add: numeral_2_eq_2)

lemma probe_families:
  "families (probe_pinctrl base) =
     [\<lparr>family_number = 3, pin_base = 37, npins = 20, regs = base + 3 * 1024\<rparr>,
      \<lparr>family_number = 7, pin_base = 101, npins = 14, regs = base + 7 * 1024\<rparr>]"
proof -
  have "families (probe_pinctrl base) = mrfld_setup_families_loop base mrfld_families 2"
    by (simp add: probe_pinctrl_def mrfld_setup_families_def array_size_families)
  then show ?thesis
    by (simp add: mrfld_families_def setup_two MRFLD_FAMILY_def MRFLD_FAMILY_LEN_def)
qed

lemma probe_nfamilies: "nfamilies (probe_pinctrl base) = 2"
  by (simp add: probe_pinctrl_def mrfld_families_def)

lemma probe_lookup:
  "mrfld_get_family_loop
     (take (unat (nfamilies (probe_pinctrl base))) (families (probe_pinctrl base))) p =
     (if 37 \<le> p \<and> p < 57
      then Some \<lparr>family_number = 3, pin_base = 37, npins = 20, regs = base + 3 * 1024\<rparr>
      else if 101 \<le> p \<and> p < 115
      then Some \<lparr>family_number = 7, pin_base = 101, npins = 14, regs = base + 7 * 1024\<rparr>
      else None)"
  by (simp add: probe_families probe_nfamilies)

section \<open>The masked read-modify-write\<close>

lemma read_and_update_value:
  "fst (mrfld_pinconfig_read_and_update bufcfg msk bits s) =
     (mem s bufcfg AND NOT msk) OR (bits AND msk)"
  by (simp add: mrfld_pinconfig_read_and_update_def readl_def)

lemma read_and_update_state:
  "snd (mrfld_pinconfig_read_and_update bufcfg msk bits s) = s\<lparr>bus := bus s @ [Readl bufcfg]\<rparr>"
  by (simp add: mrfld_pinconfig_read_and_update_def readl_def)

text \<open>
  C1 (amended). With the mask \<open>0b111\<close>, the only one the driver passes, and a
  mode \<open>m\<close> from 0 to 7, the read-modify-write step turns the register value
  \<open>v\<close> it reads into \<open>(v & ~0b111) | m\<close>: the low three bits of the result are
  \<open>m\<close>, and outside the low three bits the result has the bits of \<open>v\<close>.
\<close>

theorem read_and_update_mode_field:
  fixes m :: u32
  assumes "m \<le> 7"
  shows "fst (mrfld_pinconfig_read_and_update bufcfg MRFLD_PINMODE_MASK m s)
           = (mem s bufcfg AND NOT 7) OR m
       \<and> fst (mrfld_pinconfig_read_and_update bufcfg MRFLD_PINMODE_MASK m s) AND 7 = m
       \<and> fst (mrfld_pinconfig_read_and_update bufcfg MRFLD_PINMODE_MASK m s) AND NOT 7
           = mem s bufcfg AND NOT 7"
proof -
  let ?v = "mem s bufcfg"
  have m7: "m AND 7 = m" using assms by (rule mode_and_7)
  have mn: "m AND NOT 7 = 0" using assms by (rule mode_le_7_iff [THEN iffD2])
  have val: "fst (mrfld_pinconfig_read_and_update bufcfg MRFLD_PINMODE_MASK m s)
               = (?v AND NOT 7) OR m"
    by (simp only: read_and_update_value MRFLD_PINMODE_MASK_def m7)
  have "((?v AND NOT 7) OR m) AND 7 = (?v AND (NOT 7 AND 7)) OR (m AND 7)"
    by (simp only: bit.conj_disj_distrib2 and.assoc)
  then have low: "((?v AND NOT 7) OR m) AND 7 = m"
    by (simp add: m7)
  have "((?v AND NOT 7) OR m) AND NOT 7 = (?v AND (NOT 7 AND NOT 7)) OR (m AND NOT 7)"
    by (simp only: bit.conj_disj_distrib2 and.assoc)
  then have high: "((?v AND NOT 7) OR m) AND NOT 7 = ?v AND NOT 7"
    by (simp only: mn and.idem or.right_neutral)
  show ?thesis
    by (simp only: val low high)
qed

theorem read_and_update_mode_field_witness:
  "(5::u32) \<le> 7
   \<and> fst (mrfld_pinconfig_read_and_update 0xff0c0d00 MRFLD_PINMODE_MASK 5 sample_machine)
       = 0x1234567D"
proof -
  have h: "(5::u32) \<le> 7" by simp
  from read_and_update_mode_field [OF h, of "0xff0c0d00" sample_machine]
  have "fst (mrfld_pinconfig_read_and_update 0xff0c0d00 MRFLD_PINMODE_MASK 5 sample_machine)
          = (mem sample_machine 0xff0c0d00 AND NOT 7) OR 5" by (rule conjunct1)
  also have "\<dots> = 0x1234567D" by (simp add: sample_machine_def)
  finally show ?thesis using h by simp
qed

text \<open>
  The step takes the mask as an argument. With the mask \<open>0\<close> and mode 5 the
  register value comes back unchanged, which is not \<open>(v & ~0b111) | 5\<close>.
\<close>

theorem read_and_update_any_mask_counterexample:
  "(5::u32) \<le> 7
   \<and> fst (mrfld_pinconfig_read_and_update 0xff0c0d00 0 5 sample_machine)
       \<noteq> (mem sample_machine 0xff0c0d00 AND NOT 7) OR 5"
  by (simp add: read_and_update_value sample_machine_def)

section \<open>Register addresses\<close>

lemma unat_succ_below:
  fixes p hi :: u32
  assumes "p < hi"
  shows "unat (p + 1) = unat p + 1"
proof -
  have "unat p < unat hi" using assms by (simp add: word_less_nat_alt)
  moreover have "unat hi < 2 ^ 32" using unsigned_less [of hi, where ?'a = nat] by simp
  ultimately have "unat p + unat (1::u32) < 2 ^ LENGTH(32)" by simp
  then have "unat (p + 1) = unat p + unat (1::u32)" by (rule unat_add_lem [THEN iffD1])
  then show ?thesis by simp
qed

lemma word_succ_in_range:
  fixes p lo hi :: u32
  assumes "lo \<le> p" "p < hi"
  shows "lo \<le> p + 1"
  using assms(1) unat_succ_below [OF assms(2)] by (simp add: word_le_nat_alt)

lemma families_apart:
  fixes p :: u32
  assumes "101 \<le> p"
  shows "\<not> p < 57"
  using assms by (simp add: word_le_nat_alt word_less_nat_alt)

text \<open>
  Without wrap-around: when the eight family banks above the base fit below
  \<open>2^32\<close>, the address of a register is the sum over the natural numbers.
\<close>

lemma unat_address:
  fixes base p lo fam :: u32
  assumes fit: "unat base + 8192 \<le> 2 ^ 32"
      and fam: "unat fam \<le> 7"
      and lo: "lo \<le> p" and hi: "unat p - unat lo < 20"
  shows "unat (base + fam * 1024 + 0x100 + (p - lo) * 4)
           = unat base + unat fam * 1024 + 256 + (unat p - unat lo) * 4"
proof -
  have n4: "unat (4::u32) = 4" and n1024: "unat (1024::u32) = 1024"
    and n256: "unat (0x100::u32) = 256" by simp_all
  have d: "unat (p - lo) = unat p - unat lo" using lo by (rule unat_sub)
  have "unat (p - lo) * unat (4::u32) < 2 ^ LENGTH(32)" using hi by (simp only: d n4) simp
  then have "unat ((p - lo) * 4) = unat (p - lo) * unat (4::u32)"
    by (rule unat_mult_lem [THEN iffD1])
  then have o: "unat ((p - lo) * 4) = (unat p - unat lo) * 4" by (simp only: d n4)
  have "unat fam * unat (1024::u32) < 2 ^ LENGTH(32)" using fam by (simp only: n1024) simp
  then have "unat (fam * 1024) = unat fam * unat (1024::u32)"
    by (rule unat_mult_lem [THEN iffD1])
  then have f: "unat (fam * 1024) = unat fam * 1024" by (simp only: n1024)
  have "unat base + unat (fam * 1024) < 2 ^ LENGTH(32)" using fit fam by (simp only: f) simp
  then have "unat (base + fam * 1024) = unat base + unat (fam * 1024)"
    by (rule unat_add_lem [THEN iffD1])
  then have b: "unat (base + fam * 1024) = unat base + unat fam * 1024" by (simp only: f)
  have "unat (base + fam * 1024) + unat (0x100::u32) < 2 ^ LENGTH(32)"
    using fit fam by (simp only: b n256) simp
  then have "unat (base + fam * 1024 + 0x100) = unat (base + fam * 1024) + unat (0x100::u32)"
    by (rule unat_add_lem [THEN iffD1])
  then have c: "unat (base + fam * 1024 + 0x100) = unat base + unat fam * 1024 + 256"
    by (simp only: b n256)
  have "unat (base + fam * 1024 + 0x100) + unat ((p - lo) * 4) < 2 ^ LENGTH(32)"
    using fit fam hi by (simp only: c o) simp
  then have "unat (base + fam * 1024 + 0x100 + (p - lo) * 4)
               = unat (base + fam * 1024 + 0x100) + unat ((p - lo) * 4)"
    by (rule unat_add_lem [THEN iffD1])
  then show ?thesis by (simp only: c o)
qed

lemma probe_get_family:
  "mrfld_get_family (probe_pinctrl base) p s =
     (if 37 \<le> p \<and> p < 57
      then (Some \<lparr>family_number = 3, pin_base = 37, npins = 20, regs = base + 3 * 1024\<rparr>, s)
      else if 101 \<le> p \<and> p < 115
      then (Some \<lparr>family_number = 7, pin_base = 101, npins = 14, regs = base + 7 * 1024\<rparr>, s)
      else (None, pr_err (NoFamily p) s))"
  by (simp add: mrfld_get_family_def probe_lookup)

lemma probe_get_bufcfg:
  "fst (mrfld_get_bufcfg (probe_pinctrl base) p s) =
     (if 37 \<le> p \<and> p < 57 then base + 3 * 1024 + 0x100 + (p - 37) * 4
      else if 101 \<le> p \<and> p < 115 then base + 7 * 1024 + 0x100 + (p - 101) * 4
      else 0)"
  by (simp add: mrfld_get_bufcfg_def probe_get_family pin_to_bufno_def BUFCFG_OFFSET_def)

text \<open>
  C2. For every family \<open>f\<close> of the table the probe builds on a region at \<open>base\<close>
  and every pin \<open>p\<close> in the range of \<open>f\<close>: the family's bank starts at
  \<open>base + family_number * 1024\<close>; the control register of \<open>p\<close> is at
  \<open>base + family_number * 1024 + 0x100 + (p - pin_base) * 4\<close>; the first pin of
  the family has its register at the bank's start plus \<open>0x100\<close>; and the next
  pin of the same family has its register exactly 4 bytes further. The sums
  are those of 32-bit pointers; when the banks fit below \<open>2^32\<close> they are the
  sums over the natural numbers.
\<close>

theorem bufcfg_address:
  assumes "f \<in> set (families (probe_pinctrl base))"
      and "pin_base f \<le> p" and "p < pin_base f + npins f"
  shows "regs f = base + family_number f * 1024
       \<and> fst (mrfld_get_bufcfg (probe_pinctrl base) p s)
           = base + family_number f * 1024 + 0x100 + (p - pin_base f) * 4
       \<and> fst (mrfld_get_bufcfg (probe_pinctrl base) (pin_base f) s) = regs f + 0x100
       \<and> (p + 1 < pin_base f + npins f \<longrightarrow>
            fst (mrfld_get_bufcfg (probe_pinctrl base) (p + 1) s)
              = fst (mrfld_get_bufcfg (probe_pinctrl base) p s) + 4)
       \<and> (unat base + 8192 \<le> 2 ^ 32 \<longrightarrow>
            unat (fst (mrfld_get_bufcfg (probe_pinctrl base) p s))
              = unat base + unat (family_number f) * 1024 + 256
                + (unat p - unat (pin_base f)) * 4)"
proof -
  from assms(1) consider
      (A) "f = \<lparr>family_number = 3, pin_base = 37, npins = 20, regs = base + 3 * 1024\<rparr>"
    | (B) "f = \<lparr>family_number = 7, pin_base = 101, npins = 14, regs = base + 7 * 1024\<rparr>"
    by (auto simp: probe_families)
  then show ?thesis
  proof cases
    case A
    with assms(2,3) have r: "37 \<le> p" "p < 57" by simp_all
    have s1: "37 \<le> p + 1" using r by (rule word_succ_in_range)
    have addr: "fst (mrfld_get_bufcfg (probe_pinctrl base) p s)
                  = base + 3 * 1024 + 0x100 + (p - 37) * 4"
      using r by (simp add: probe_get_bufcfg)
    have "unat p - unat (37::u32) < 20" using r(2) by (simp add: word_less_nat_alt)
    then have nat: "unat base + 8192 \<le> 2 ^ 32 \<Longrightarrow>
        unat (base + 3 * 1024 + 0x100 + (p - 37) * 4)
          = unat base + unat (3::u32) * 1024 + 256 + (unat p - unat (37::u32)) * 4"
      using r(1) by (intro unat_address) simp_all
    show ?thesis using r s1 A nat by (simp add: probe_get_bufcfg)
  next
    case B
    with assms(2,3) have r: "101 \<le> p" "p < 115" by simp_all
    have s1: "101 \<le> p + 1" using r by (rule word_succ_in_range)
    have n1: "\<not> p < 57" using r(1) by (rule families_apart)
    have n2: "\<not> p + 1 < 57" using s1 by (rule families_apart)
    have "unat p - unat (101::u32) < 20" using r(2) by (simp add: word_less_nat_alt)
    then have nat: "unat base + 8192 \<le> 2 ^ 32 \<Longrightarrow>
        unat (base + 7 * 1024 + 0x100 + (p - 101) * 4)
          = unat base + unat (7::u32) * 1024 + 256 + (unat p - unat (101::u32)) * 4"
      using r(1) by (intro unat_address) simp_all
    show ?thesis using r s1 n1 n2 B nat by (simp add: probe_get_bufcfg)
  qed
qed

theorem bufcfg_address_witness:
  "\<lparr>family_number = 7, pin_base = 101, npins = 14, regs = 0xff0c1c00\<rparr>
      \<in> set (families (probe_pinctrl 0xff0c0000))
   \<and> fst (mrfld_get_bufcfg (probe_pinctrl 0xff0c0000) 102 sample_machine) = 0xff0c1d04
   \<and> fst (mrfld_get_bufcfg (probe_pinctrl 0xff0c0000) 101 sample_machine) = 0xff0c1d00
   \<and> fst (mrfld_get_bufcfg (probe_pinctrl 0xff0c0000) 103 sample_machine) = 0xff0c1d08
   \<and> unat (fst (mrfld_get_bufcfg (probe_pinctrl 0xff0c0000) 102 sample_machine)) = 4278983940"
proof -
  let ?f = "\<lparr>family_number = 7, pin_base = 101, npins = 14, regs = 0xff0c1c00 :: iomem\<rparr>"
  have m: "?f \<in> set (families (probe_pinctrl 0xff0c0000))" by (simp add: probe_families)
  have lo: "pin_base ?f \<le> 102" by simp
  have hi: "102 < pin_base ?f + npins ?f" by simp
  from bufcfg_address [OF m lo hi, of sample_machine] m
  show ?thesis by simp
qed

section \<open>One configuration entry\<close>

lemma mode_le_7_not_sentinel: "(m::u32) \<le> 7 \<Longrightarrow> m \<noteq> - 1"
  by (auto simp: word_order.extremum_unique)

lemma get_family_fst:
  "fst (mrfld_get_family mp pin s) =
     mrfld_get_family_loop (take (unat (nfamilies mp)) (families mp)) pin"
  by (simp add: mrfld_get_family_def split: option.splits)

lemma errno_nonzero: "- EINVAL \<noteq> 0" "- ENOTSUPP \<noteq> 0" "- EINVAL \<noteq> - ENOTSUPP"
  by (simp_all add: EINVAL_def ENOTSUPP_def)

text \<open>An entry that passes the three checks reaches one of the two write paths.\<close>

lemma cfg_pin_checked:
  assumes "prop_pad_offset n = Some p" "p \<noteq> - 1" "prop_mode_func n = Some m" "m \<le> 7"
  shows "mrfld_pinctrl_cfg_pin e n s =
           (case (if ofnode_read_bool (prop_protected n)
                  then mrfld_pinconfig_protected e p MRFLD_PINMODE_MASK m s
                  else mrfld_pinconfig e p MRFLD_PINMODE_MASK m s) of
              (ret, s') \<Rightarrow> (ret, if ret \<noteq> 0 then pr_err (SetModeFailed p ret) s' else s'))"
proof -
  have "m \<noteq> - 1" using assms(4) by (rule mode_le_7_not_sentinel)
  moreover have "m AND NOT MRFLD_PINMODE_MASK = 0"
    using assms(4) by (simp only: MRFLD_PINMODE_MASK_def mode_le_7_iff)
  ultimately show ?thesis
    using assms(1-3)
    by (simp add: mrfld_pinctrl_cfg_pin_def ofnode_read_s32_default_def Let_def)
qed

text \<open>A pin that no family owns: both write paths stop at the lookup.\<close>

lemma get_bufcfg_no_family:
  assumes "syscon_ret e = 0" "fst (mrfld_get_family (priv s) p s) = None"
  shows "mrfld_pinconfig_get_bufcfg e p s = (Inl (- EINVAL), pr_err (NoFamily p) s)"
proof -
  from assms(2) have "mrfld_get_family (priv s) p s = (None, pr_err (NoFamily p) s)"
    by (simp add: mrfld_get_family_def split: option.splits)
  then show ?thesis
    using assms(1) by (simp add: mrfld_pinconfig_get_bufcfg_def mrfld_get_bufcfg_def)
qed

lemma cfg_pin_no_family:
  assumes "prop_pad_offset n = Some p" "p \<noteq> - 1" "prop_mode_func n = Some m" "m \<le> 7"
      and "syscon_ret e = 0" "fst (mrfld_get_family (priv s) p s) = None"
  shows "mrfld_pinctrl_cfg_pin e n s =
           (- EINVAL, s\<lparr>console := console s @ [NoFamily p, SetModeFailed p (- EINVAL)]\<rparr>)"
  using errno_nonzero(1)
  by (simp add: cfg_pin_checked [OF assms(1-4)] get_bufcfg_no_family [OF assms(5,6)]
      mrfld_pinconfig_protected_def mrfld_pinconfig_def pr_err_def)

lemma probe_step_no_family:
  assumes "prop_pad_offset n = Some p" "p \<noteq> - 1" "prop_mode_func n = Some m" "m \<le> 7"
      and "syscon_ret e = 0" "fst (mrfld_get_family (priv s) p s) = None"
  shows "probe_subnode e n s =
           s\<lparr>console := console s @
               [NoFamily p, SetModeFailed p (- EINVAL), InvalidPinCfg (of_offset n)]\<rparr>"
  using errno_nonzero(1)
  by (simp add: probe_subnode_def cfg_pin_no_family [OF assms] pr_err_def)

section \<open>Family lookup\<close>

text \<open>The scan returns the first family, in table order, whose range has the pin.\<close>

lemma get_family_loop_first:
  "mrfld_get_family_loop fams pin
     = find (\<lambda>f. pin_base f \<le> pin \<and> pin < pin_base f + npins f) fams"
  by (induction fams) simp_all

text \<open>
  C4. On the table the probe builds, every pin inside a family's range
  \<open>[pin_base, pin_base + npins)\<close> resolves to that family, with nothing
  printed, and no other family of the table has the pin in its range; the pin
  just below a family's first pin and the pin just after its
  last resolve to no family (no other family of the table covers them). A pin
  that resolves to no family costs only its own entry: the entry fails with
  \<open>-EINVAL\<close>, the registers and the bus are as before, three messages are
  printed, and the pass goes on with the entries that follow and returns 0.
\<close>

theorem get_family_resolves:
  assumes "f \<in> set (families (probe_pinctrl base))"
  shows "(\<forall>p. pin_base f \<le> p \<and> p < pin_base f + npins f \<longrightarrow>
            mrfld_get_family (probe_pinctrl base) p s = (Some f, s)
            \<and> (\<forall>g \<in> set (families (probe_pinctrl base)).
                  pin_base g \<le> p \<and> p < pin_base g + npins g \<longrightarrow> g = f))
       \<and> mrfld_get_family (probe_pinctrl base) (pin_base f - 1) s
           = (None, pr_err (NoFamily (pin_base f - 1)) s)
       \<and> mrfld_get_family (probe_pinctrl base) (pin_base f + npins f) s
           = (None, pr_err (NoFamily (pin_base f + npins f)) s)
       \<and> (\<forall>e n rest p m.
            prop_pad_offset n = Some p \<and> p \<noteq> - 1 \<and> prop_mode_func n = Some m \<and> m \<le> 7
            \<and> syscon_ret e = 0 \<and> syscon_first_range e = base
            \<and> fst (mrfld_get_family (probe_pinctrl base) p s) = None \<longrightarrow>
            tangier_pinctrl_probe e (n # rest) s
              = (0, probe_subnodes e rest
                      (s\<lparr>priv := probe_pinctrl base,
                         console := console s @
                           [NoFamily p, SetModeFailed p (- EINVAL), InvalidPinCfg (of_offset n)]\<rparr>)))"
proof -
  have inside: "\<forall>p. pin_base f \<le> p \<and> p < pin_base f + npins f \<longrightarrow>
                  mrfld_get_family (probe_pinctrl base) p s = (Some f, s)
                  \<and> (\<forall>g \<in> set (families (probe_pinctrl base)).
                        pin_base g \<le> p \<and> p < pin_base g + npins g \<longrightarrow> g = f)"
    using assms by (auto simp: probe_families probe_get_family dest: families_apart)
  have below: "mrfld_get_family (probe_pinctrl base) (pin_base f - 1) s
                 = (None, pr_err (NoFamily (pin_base f - 1)) s)"
    using assms by (auto simp: probe_families probe_get_family)
  have above: "mrfld_get_family (probe_pinctrl base) (pin_base f + npins f) s
                 = (None, pr_err (NoFamily (pin_base f + npins f)) s)"
    using assms by (auto simp: probe_families probe_get_family)
  have pass: "tangier_pinctrl_probe e (n # rest) s
              = (0, probe_subnodes e rest
                      (s\<lparr>priv := probe_pinctrl base,
                         console := console s @
                           [NoFamily p, SetModeFailed p (- EINVAL), InvalidPinCfg (of_offset n)]\<rparr>))"
    if h: "prop_pad_offset n = Some p" "p \<noteq> - 1" "prop_mode_func n = Some m" "m \<le> 7"
          "syscon_ret e = 0" "syscon_first_range e = base"
          "fst (mrfld_get_family (probe_pinctrl base) p s) = None"
    for e n rest p m
  proof -
    let ?s1 = "s\<lparr>priv := probe_pinctrl base\<rparr>"
    from h(7) have "fst (mrfld_get_family (priv ?s1) p ?s1) = None"
      by (simp add: get_family_fst)
    from probe_step_no_family [OF h(1-5) this]
    show ?thesis by (simp add: tangier_pinctrl_probe_def h(6))
  qed
  from inside below above pass show ?thesis by blast
qed

theorem get_family_resolves_witness:
  "\<lparr>family_number = 3, pin_base = 37, npins = 20, regs = 0xff0c0c00\<rparr>
      \<in> set (families (probe_pinctrl 0xff0c0000))
   \<and> mrfld_get_family (probe_pinctrl 0xff0c0000) 56 sample_machine
       = (Some \<lparr>family_number = 3, pin_base = 37, npins = 20, regs = 0xff0c0c00\<rparr>, sample_machine)
   \<and> fst (mrfld_get_family (probe_pinctrl 0xff0c0000) 36 sample_machine) = None
   \<and> fst (mrfld_get_family (probe_pinctrl 0xff0c0000) 57 sample_machine) = None
   \<and> fst (tangier_pinctrl_probe sample_env
            [\<lparr>of_offset = 64, prop_pad_offset = Some 999, prop_mode_func = Some 1,
              prop_protected = None\<rparr>] sample_machine) = 0
   \<and> console (snd (tangier_pinctrl_probe sample_env
            [\<lparr>of_offset = 64, prop_pad_offset = Some 999, prop_mode_func = Some 1,
              prop_protected = None\<rparr>] sample_machine))
       = [NoFamily 999, SetModeFailed 999 (- EINVAL), InvalidPinCfg 64]"
proof -
  let ?f = "\<lparr>family_number = 3, pin_base = 37, npins = 20, regs = 0xff0c0c00 :: iomem\<rparr>"
  let ?n = "\<lparr>of_offset = 64, prop_pad_offset = Some 999, prop_mode_func = Some 1,
              prop_protected = None\<rparr>"
  have m: "?f \<in> set (families (probe_pinctrl 0xff0c0000))" by (simp add: probe_families)
  note t = get_family_resolves [OF m, of sample_machine]
  from t have a: "mrfld_get_family (probe_pinctrl 0xff0c0000) 56 sample_machine = (Some ?f, sample_machine)"
    by simp
  from t have b: "fst (mrfld_get_family (probe_pinctrl 0xff0c0000) 36 sample_machine) = None"
    by simp
  from t have c: "fst (mrfld_get_family (probe_pinctrl 0xff0c0000) 57 sample_machine) = None"
    by simp
  have nf: "fst (mrfld_get_family (probe_pinctrl 0xff0c0000) 999 sample_machine) = None"
    by (simp add: probe_get_family)
  from t have "prop_pad_offset ?n = Some 999 \<and> (999::u32) \<noteq> - 1 \<and> prop_mode_func ?n = Some 1
      \<and> (1::u32) \<le> 7 \<and> syscon_ret sample_env = 0 \<and> syscon_first_range sample_env = 0xff0c0000
      \<and> fst (mrfld_get_family (probe_pinctrl 0xff0c0000) 999 sample_machine) = None \<longrightarrow>
      tangier_pinctrl_probe sample_env (?n # []) sample_machine
        = (0, probe_subnodes sample_env []
                (sample_machine\<lparr>priv := probe_pinctrl 0xff0c0000,
                   console := console sample_machine @
                     [NoFamily 999, SetModeFailed 999 (- EINVAL), InvalidPinCfg (of_offset ?n)]\<rparr>))"
    by blast
  then have d: "tangier_pinctrl_probe sample_env [?n] sample_machine
        = (0, sample_machine\<lparr>priv := probe_pinctrl 0xff0c0000,
                   console := [NoFamily 999, SetModeFailed 999 (- EINVAL), InvalidPinCfg 64]\<rparr>)"
    using nf by (simp add: sample_env_def sample_machine_def)
  show ?thesis using m a b c d by simp
qed

section \<open>The two families\<close>

text \<open>
  C8 (amended). The table has exactly two families: family 3 covers the pins 37
  to 56 (20 pins) with its bank at \<open>region + 3 * 1024\<close>, family 7 covers the
  pins 101 to 114 (14 pins) with its bank at \<open>region + 7 * 1024\<close>; a pin
  resolves to a family exactly when it lies in one of the two ranges. Pin 37
  has its control register at \<open>region + 3 * 1024 + 0x100\<close> and pin 101 at
  \<open>region + 7 * 1024 + 0x100\<close>.
\<close>

theorem two_families:
  "families (probe_pinctrl region) =
     [\<lparr>family_number = 3, pin_base = 37, npins = 20, regs = region + 3 * 1024\<rparr>,
      \<lparr>family_number = 7, pin_base = 101, npins = 14, regs = region + 7 * 1024\<rparr>]
   \<and> nfamilies (probe_pinctrl region) = 2
   \<and> (fst (mrfld_get_family (probe_pinctrl region) p s) \<noteq> None)
       = (37 \<le> p \<and> p \<le> 56 \<or> 101 \<le> p \<and> p \<le> 114)
   \<and> fst (mrfld_get_bufcfg (probe_pinctrl region) 37 s) = region + 3 * 1024 + 0x100
   \<and> fst (mrfld_get_bufcfg (probe_pinctrl region) 101 s) = region + 7 * 1024 + 0x100"
proof -
  have a: "p \<le> 56 \<longleftrightarrow> p < 57"
    by (simp add: word_le_nat_alt word_less_nat_alt) arith
  have b: "p \<le> 114 \<longleftrightarrow> p < 115"
    by (simp add: word_le_nat_alt word_less_nat_alt) arith
  have "(fst (mrfld_get_family (probe_pinctrl region) p s) \<noteq> None)
          = (37 \<le> p \<and> p \<le> 56 \<or> 101 \<le> p \<and> p \<le> 114)"
    by (simp add: probe_get_family a b)
  then show ?thesis
    by (simp add: probe_families probe_nfamilies probe_get_bufcfg)
qed

theorem two_families_witness:
  "families (probe_pinctrl 0xff0c0000) =
     [\<lparr>family_number = 3, pin_base = 37, npins = 20, regs = 0xff0c0c00\<rparr>,
      \<lparr>family_number = 7, pin_base = 101, npins = 14, regs = 0xff0c1c00\<rparr>]
   \<and> fst (mrfld_get_family (probe_pinctrl 0xff0c0000) 56 sample_machine) \<noteq> None
   \<and> fst (mrfld_get_bufcfg (probe_pinctrl 0xff0c0000) 37 sample_machine) = 0xff0c0d00
   \<and> fst (mrfld_get_bufcfg (probe_pinctrl 0xff0c0000) 101 sample_machine) = 0xff0c1d00"
  using two_families [of "0xff0c0000" 56 sample_machine] by simp

text \<open>
  Pin 92, which a reading of 56 as a pin count would make the last pin of
  family 3, belongs to no family:
  the second and third arguments of \<open>MRFLD_FAMILY\<close> are the first and the last
  pin, so the family ends at pin 56.
\<close>

theorem pin_92_counterexample:
  "fst (mrfld_get_family (probe_pinctrl 0xff0c0000) 92 sample_machine) = None
   \<and> map npins mrfld_families = [20, 14]"
  by (simp add: probe_get_family mrfld_families_def MRFLD_FAMILY_def)

section \<open>Validation of an entry\<close>

text \<open>
  C6. An entry that lacks the pad-offset field or the mode-func field is
  rejected with \<open>-EINVAL\<close>; nothing stands in for the missing value, and the
  state (registers, bus trace, console, private data) is exactly as before.
\<close>

theorem cfg_pin_missing_field:
  assumes "prop_pad_offset n = None \<or> prop_mode_func n = None"
  shows "mrfld_pinctrl_cfg_pin e n s = (- EINVAL, s)"
  using assms
  by (auto simp: mrfld_pinctrl_cfg_pin_def ofnode_read_s32_default_def Let_def)

theorem cfg_pin_missing_field_witness:
  "mrfld_pinctrl_cfg_pin sample_env
     \<lparr>of_offset = 64, prop_pad_offset = None, prop_mode_func = Some 5, prop_protected = None\<rparr>
     sample_machine = (- EINVAL, sample_machine)
   \<and> mrfld_pinctrl_cfg_pin sample_env
     \<lparr>of_offset = 64, prop_pad_offset = Some 37, prop_mode_func = None, prop_protected = None\<rparr>
     sample_machine = (- EINVAL, sample_machine)"
  using
    cfg_pin_missing_field [of "\<lparr>of_offset = 64, prop_pad_offset = None, prop_mode_func = Some 5,
      prop_protected = None\<rparr>" sample_env sample_machine]
    cfg_pin_missing_field [of "\<lparr>of_offset = 64, prop_pad_offset = Some 37, prop_mode_func = None,
      prop_protected = None\<rparr>" sample_env sample_machine]
  by simp

text \<open>
  C5 (amended). An entry whose mode has a bit set outside \<open>0b111\<close> never
  reaches the hardware: the state is exactly as before (no register read, no
  register write, no channel request). Its code is \<open>-ENOTSUPP\<close> when the
  pad-offset is present and not \<open>-1\<close> and the mode is not \<open>-1\<close>; otherwise the
  entry has already been rejected with \<open>-EINVAL\<close>.
\<close>

theorem cfg_pin_unsupported_mode:
  assumes "prop_mode_func n = Some m" and "m AND NOT 7 \<noteq> 0"
  shows "snd (mrfld_pinctrl_cfg_pin e n s) = s
       \<and> fst (mrfld_pinctrl_cfg_pin e n s) =
           (if prop_pad_offset n = None \<or> prop_pad_offset n = Some (- 1) \<or> m = - 1
            then - EINVAL else - ENOTSUPP)"
  using assms
  by (auto simp: mrfld_pinctrl_cfg_pin_def ofnode_read_s32_default_def Let_def
      MRFLD_PINMODE_MASK_def split: option.splits)

theorem cfg_pin_unsupported_mode_witness:
  "(8::u32) AND NOT 7 \<noteq> 0
   \<and> mrfld_pinctrl_cfg_pin sample_env
        \<lparr>of_offset = 64, prop_pad_offset = Some 37, prop_mode_func = Some 8,
         prop_protected = None\<rparr> sample_machine = (- ENOTSUPP, sample_machine)"
proof -
  let ?n = "\<lparr>of_offset = 64, prop_pad_offset = Some 37, prop_mode_func = Some 8,
         prop_protected = None\<rparr>"
  have m: "prop_mode_func ?n = Some 8" by simp
  have b: "(8::u32) AND NOT 7 \<noteq> 0" by simp
  from cfg_pin_unsupported_mode [OF m b, of sample_env sample_machine]
  have "snd (mrfld_pinctrl_cfg_pin sample_env ?n sample_machine) = sample_machine
      \<and> fst (mrfld_pinctrl_cfg_pin sample_env ?n sample_machine) = - ENOTSUPP"
    by simp
  then have "mrfld_pinctrl_cfg_pin sample_env ?n sample_machine = (- ENOTSUPP, sample_machine)"
    by (simp add: prod_eq_iff)
  with b show ?thesis by simp
qed

text \<open>
  The mode \<open>-1\<close> has every bit outside \<open>0b111\<close> set, and the entry is rejected
  with \<open>-EINVAL\<close>, not \<open>-ENOTSUPP\<close>: the check against the sentinel comes first.
\<close>

theorem mode_minus_one_counterexample:
  "(- 1 :: u32) AND NOT 7 \<noteq> 0
   \<and> fst (mrfld_pinctrl_cfg_pin sample_env
        \<lparr>of_offset = 64, prop_pad_offset = Some 37, prop_mode_func = Some (- 1),
         prop_protected = None\<rparr> sample_machine) = - EINVAL
   \<and> - EINVAL \<noteq> - ENOTSUPP"
  by (simp add: mrfld_pinctrl_cfg_pin_def ofnode_read_s32_default_def EINVAL_def ENOTSUPP_def)

text \<open>
  C10. An entry whose pad-offset or mode-func is present with the value \<open>-1\<close>
  is treated exactly as the entry without that field: same code, same state.
  The code is \<open>-EINVAL\<close>, which is not \<open>-ENOTSUPP\<close>, and the state is as
  before, so no family was looked up (the lookup would have printed).
\<close>

theorem cfg_pin_sentinel:
  "mrfld_pinctrl_cfg_pin e (n\<lparr>prop_pad_offset := Some (- 1)\<rparr>) s
     = mrfld_pinctrl_cfg_pin e (n\<lparr>prop_pad_offset := None\<rparr>) s
   \<and> mrfld_pinctrl_cfg_pin e (n\<lparr>prop_mode_func := Some (- 1)\<rparr>) s
     = mrfld_pinctrl_cfg_pin e (n\<lparr>prop_mode_func := None\<rparr>) s
   \<and> mrfld_pinctrl_cfg_pin e (n\<lparr>prop_pad_offset := Some (- 1)\<rparr>) s = (- EINVAL, s)
   \<and> mrfld_pinctrl_cfg_pin e (n\<lparr>prop_mode_func := Some (- 1)\<rparr>) s = (- EINVAL, s)
   \<and> - EINVAL \<noteq> - ENOTSUPP"
  by (simp add: mrfld_pinctrl_cfg_pin_def ofnode_read_s32_default_def Let_def
      EINVAL_def ENOTSUPP_def)

theorem cfg_pin_sentinel_witness:
  "mrfld_pinctrl_cfg_pin sample_env
     \<lparr>of_offset = 64, prop_pad_offset = Some 37, prop_mode_func = Some (- 1),
      prop_protected = Some True\<rparr> sample_machine = (- EINVAL, sample_machine)
   \<and> mrfld_pinctrl_cfg_pin sample_env
     \<lparr>of_offset = 64, prop_pad_offset = Some (- 1), prop_mode_func = Some 5,
      prop_protected = Some True\<rparr> sample_machine = (- EINVAL, sample_machine)"
proof -
  let ?n = "\<lparr>of_offset = 64, prop_pad_offset = Some 37, prop_mode_func = Some 5,
      prop_protected = Some True\<rparr>"
  note t = cfg_pin_sentinel [of sample_env ?n sample_machine]
  from t have "mrfld_pinctrl_cfg_pin sample_env (?n\<lparr>prop_mode_func := Some (- 1)\<rparr>) sample_machine
                 = (- EINVAL, sample_machine)" by blast
  then have a: "mrfld_pinctrl_cfg_pin sample_env
     \<lparr>of_offset = 64, prop_pad_offset = Some 37, prop_mode_func = Some (- 1),
      prop_protected = Some True\<rparr> sample_machine = (- EINVAL, sample_machine)" by simp
  from t have "mrfld_pinctrl_cfg_pin sample_env (?n\<lparr>prop_pad_offset := Some (- 1)\<rparr>) sample_machine
                 = (- EINVAL, sample_machine)" by blast
  then have b: "mrfld_pinctrl_cfg_pin sample_env
     \<lparr>of_offset = 64, prop_pad_offset = Some (- 1), prop_mode_func = Some 5,
      prop_protected = Some True\<rparr> sample_machine = (- EINVAL, sample_machine)" by simp
  from a b show ?thesis by (rule conjI)
qed

section \<open>The two write paths\<close>

lemma get_bufcfg_state:
  "snd (mrfld_pinconfig_get_bufcfg e pin s) = s
   \<or> snd (mrfld_pinconfig_get_bufcfg e pin s) = pr_err (NoFamily pin) s"
  by (simp add: mrfld_pinconfig_get_bufcfg_def mrfld_get_bufcfg_def mrfld_get_family_def Let_def
      split: option.splits)

text \<open>A non-null address comes from a family, and the lookup then prints nothing.\<close>

lemma get_bufcfg_found:
  assumes "syscon_ret e = 0" and "fst (mrfld_get_bufcfg (priv s) pin s) = a" and "a \<noteq> 0"
  shows "mrfld_pinconfig_get_bufcfg e pin s = (Inr a, s)"
  using assms
  by (auto simp: mrfld_pinconfig_get_bufcfg_def mrfld_get_bufcfg_def mrfld_get_family_def Let_def
      split: option.splits)

lemma pinconfig_found:
  assumes "mrfld_pinconfig_get_bufcfg e pin s = (Inr a, s)"
  shows "mrfld_pinconfig e pin msk bits s =
           (0, s\<lparr>mem := (mem s)(a := (mem s a AND NOT msk) OR (bits AND msk)),
                 bus := bus s @ [Readl a, Writel ((mem s a AND NOT msk) OR (bits AND msk)) a]\<rparr>)"
  by (simp add: mrfld_pinconfig_def assms mrfld_pinconfig_read_and_update_def readl_def writel_def)

lemma pinconfig_protected_found:
  assumes "mrfld_pinconfig_get_bufcfg e pin s = (Inr a, s)"
  shows "fst (mrfld_pinconfig_protected e pin msk bits s)
           = scu_ret e a ((mem s a AND NOT msk) OR (bits AND msk))
       \<and> bus (snd (mrfld_pinconfig_protected e pin msk bits s))
           = bus s @ [Readl a,
               ScuIpc IPCMSG_INDIRECT_WRITE 0 ((mem s a AND NOT msk) OR (bits AND msk)) 4 0 a 0]
       \<and> console (snd (mrfld_pinconfig_protected e pin msk bits s)) = console s"
  by (simp add: mrfld_pinconfig_protected_def assms mrfld_pinconfig_read_and_update_def readl_def
      scu_ipc_raw_command_def Let_def)

lemma pinconfig_failed:
  assumes "mrfld_pinconfig_get_bufcfg e pin s = (Inl ret, s1)"
  shows "mrfld_pinconfig e pin msk bits s = (ret, s1)"
    and "mrfld_pinconfig_protected e pin msk bits s = (ret, s1)"
  by (simp_all add: mrfld_pinconfig_def mrfld_pinconfig_protected_def assms)

text \<open>No path of the direct write talks to the SCU; no path of the protected write stores.\<close>

lemma pinconfig_no_ipc:
  "filter is_ipc (bus (snd (mrfld_pinconfig e pin msk bits s))) = filter is_ipc (bus s)"
proof (cases "mrfld_pinconfig_get_bufcfg e pin s")
  case (Pair r s1)
  with get_bufcfg_state [of e pin s] have s1: "bus s1 = bus s" by (auto simp: pr_err_def)
  show ?thesis
  proof (cases r)
    case (Inl ret)
    with Pair s1 show ?thesis by (simp add: mrfld_pinconfig_def)
  next
    case (Inr a)
    with Pair s1 show ?thesis
      by (simp add: mrfld_pinconfig_def mrfld_pinconfig_read_and_update_def readl_def writel_def)
  qed
qed

lemma pinconfig_protected_no_store:
  "filter is_store (bus (snd (mrfld_pinconfig_protected e pin msk bits s)))
     = filter is_store (bus s)"
proof (cases "mrfld_pinconfig_get_bufcfg e pin s")
  case (Pair r s1)
  with get_bufcfg_state [of e pin s] have s1: "bus s1 = bus s" by (auto simp: pr_err_def)
  show ?thesis
  proof (cases r)
    case (Inl ret)
    with Pair s1 show ?thesis by (simp add: mrfld_pinconfig_protected_def)
  next
    case (Inr a)
    with Pair s1 show ?thesis
      by (simp add: mrfld_pinconfig_protected_def mrfld_pinconfig_read_and_update_def readl_def
          scu_ipc_raw_command_def Let_def)
  qed
qed

lemma cfg_pin_bus:
  "bus (snd (mrfld_pinctrl_cfg_pin e n s)) =
     (if ofnode_read_s32_default (prop_pad_offset n) (- 1) = - 1
         \<or> ofnode_read_s32_default (prop_mode_func n) (- 1) = - 1
         \<or> ofnode_read_s32_default (prop_mode_func n) (- 1) AND NOT MRFLD_PINMODE_MASK \<noteq> 0
      then bus s
      else if ofnode_read_bool (prop_protected n)
      then bus (snd (mrfld_pinconfig_protected e (ofnode_read_s32_default (prop_pad_offset n) (- 1))
                  MRFLD_PINMODE_MASK (ofnode_read_s32_default (prop_mode_func n) (- 1)) s))
      else bus (snd (mrfld_pinconfig e (ofnode_read_s32_default (prop_pad_offset n) (- 1))
                  MRFLD_PINMODE_MASK (ofnode_read_s32_default (prop_mode_func n) (- 1)) s)))"
  by (simp add: mrfld_pinctrl_cfg_pin_def Let_def pr_err_def split: prod.splits)

text \<open>
  C3. The protected flag alone selects the path. An entry whose flag is
  present and true never issues a memory-mapped store; an entry whose flag is
  absent or false (an absent flag reads as false) never issues a channel
  request. When the entry passes validation and its pin has a register at
  address \<open>a\<close>: with the flag true the bus sees the read of \<open>a\<close> and then one
  indirect-write request carrying \<open>a\<close> and the new value, and the entry's code
  is the channel's answer; with the flag absent or false the bus sees the read
  of \<open>a\<close> and then the store of the new value to \<open>a\<close>, and the code is 0.
\<close>

theorem cfg_pin_write_path:
  "(prop_protected n = Some True \<longrightarrow>
      filter is_store (bus (snd (mrfld_pinctrl_cfg_pin e n s))) = filter is_store (bus s))
   \<and> (prop_protected n = None \<or> prop_protected n = Some False \<longrightarrow>
      filter is_ipc (bus (snd (mrfld_pinctrl_cfg_pin e n s))) = filter is_ipc (bus s))
   \<and> mrfld_pinctrl_cfg_pin e (n\<lparr>prop_protected := None\<rparr>) s
       = mrfld_pinctrl_cfg_pin e (n\<lparr>prop_protected := Some False\<rparr>) s
   \<and> (prop_pad_offset n = Some p \<and> p \<noteq> - 1 \<and> prop_mode_func n = Some m \<and> m \<le> 7
       \<and> syscon_ret e = 0 \<and> fst (mrfld_get_bufcfg (priv s) p s) = a \<and> a \<noteq> 0 \<longrightarrow>
        (prop_protected n = Some True \<longrightarrow>
           bus (snd (mrfld_pinctrl_cfg_pin e n s))
             = bus s @ [Readl a, ScuIpc IPCMSG_INDIRECT_WRITE 0 ((mem s a AND NOT 7) OR m) 4 0 a 0]
           \<and> fst (mrfld_pinctrl_cfg_pin e n s) = scu_ret e a ((mem s a AND NOT 7) OR m))
      \<and> (prop_protected n = None \<or> prop_protected n = Some False \<longrightarrow>
           mrfld_pinctrl_cfg_pin e n s
             = (0, s\<lparr>mem := (mem s)(a := (mem s a AND NOT 7) OR m),
                     bus := bus s @ [Readl a, Writel ((mem s a AND NOT 7) OR m) a]\<rparr>)))"
proof -
  have no_store: "filter is_store (bus (snd (mrfld_pinctrl_cfg_pin e n s))) = filter is_store (bus s)"
    if "prop_protected n = Some True"
    using that by (simp add: cfg_pin_bus ofnode_read_bool_def pinconfig_protected_no_store)
  have no_ipc: "filter is_ipc (bus (snd (mrfld_pinctrl_cfg_pin e n s))) = filter is_ipc (bus s)"
    if "prop_protected n = None \<or> prop_protected n = Some False"
    using that by (auto simp: cfg_pin_bus ofnode_read_bool_def pinconfig_no_ipc)
  have dflt: "mrfld_pinctrl_cfg_pin e (n\<lparr>prop_protected := None\<rparr>) s
                = mrfld_pinctrl_cfg_pin e (n\<lparr>prop_protected := Some False\<rparr>) s"
    by (simp add: mrfld_pinctrl_cfg_pin_def ofnode_read_bool_def Let_def)
  have paths:
    "(prop_protected n = Some True \<longrightarrow>
           bus (snd (mrfld_pinctrl_cfg_pin e n s))
             = bus s @ [Readl a, ScuIpc IPCMSG_INDIRECT_WRITE 0 ((mem s a AND NOT 7) OR m) 4 0 a 0]
           \<and> fst (mrfld_pinctrl_cfg_pin e n s) = scu_ret e a ((mem s a AND NOT 7) OR m))
      \<and> (prop_protected n = None \<or> prop_protected n = Some False \<longrightarrow>
           mrfld_pinctrl_cfg_pin e n s
             = (0, s\<lparr>mem := (mem s)(a := (mem s a AND NOT 7) OR m),
                     bus := bus s @ [Readl a, Writel ((mem s a AND NOT 7) OR m) a]\<rparr>))"
    if v: "prop_pad_offset n = Some p" "p \<noteq> - 1" "prop_mode_func n = Some m" "m \<le> 7"
      and r: "syscon_ret e = 0" "fst (mrfld_get_bufcfg (priv s) p s) = a" "a \<noteq> 0"
  proof -
    have m7: "m AND 7 = m" using v(4) by (rule mode_and_7)
    note found = get_bufcfg_found [OF r]
    note chk = cfg_pin_checked [OF v, of e s]
    have direct: "mrfld_pinconfig e p MRFLD_PINMODE_MASK m s
        = (0, s\<lparr>mem := (mem s)(a := (mem s a AND NOT 7) OR m),
                bus := bus s @ [Readl a, Writel ((mem s a AND NOT 7) OR m) a]\<rparr>)"
      using pinconfig_found [OF found, of MRFLD_PINMODE_MASK m]
      by (simp only: MRFLD_PINMODE_MASK_def m7)
    have prot: "fst (mrfld_pinconfig_protected e p MRFLD_PINMODE_MASK m s)
           = scu_ret e a ((mem s a AND NOT 7) OR m)
       \<and> bus (snd (mrfld_pinconfig_protected e p MRFLD_PINMODE_MASK m s))
           = bus s @ [Readl a, ScuIpc IPCMSG_INDIRECT_WRITE 0 ((mem s a AND NOT 7) OR m) 4 0 a 0]"
      using pinconfig_protected_found [OF found, of MRFLD_PINMODE_MASK m]
      by (simp only: MRFLD_PINMODE_MASK_def m7)
    show ?thesis
      using direct prot
      by (auto simp: chk ofnode_read_bool_def pr_err_def split: prod.splits)
  qed
  from no_store no_ipc dflt paths show ?thesis by blast
qed

theorem cfg_pin_write_path_witness:
  "bus (snd (mrfld_pinctrl_cfg_pin sample_env
        \<lparr>of_offset = 64, prop_pad_offset = Some 101, prop_mode_func = Some 2,
         prop_protected = Some True\<rparr> (sample_machine\<lparr>priv := probe_pinctrl 0xff0c0000\<rparr>)))
     = [Readl 0xff0c1d00, ScuIpc IPCMSG_INDIRECT_WRITE 0 0x1234567A 4 0 0xff0c1d00 0]
   \<and> bus (snd (mrfld_pinctrl_cfg_pin sample_env
        \<lparr>of_offset = 64, prop_pad_offset = Some 37, prop_mode_func = Some 5,
         prop_protected = None\<rparr> (sample_machine\<lparr>priv := probe_pinctrl 0xff0c0000\<rparr>)))
     = [Readl 0xff0c0d00, Writel 0x1234567D 0xff0c0d00]"
proof -
  let ?s = "sample_machine\<lparr>priv := probe_pinctrl 0xff0c0000\<rparr>"
  let ?np = "\<lparr>of_offset = 64, prop_pad_offset = Some 101, prop_mode_func = Some 2,
         prop_protected = Some True\<rparr>"
  let ?nd = "\<lparr>of_offset = 64, prop_pad_offset = Some 37, prop_mode_func = Some 5,
         prop_protected = None\<rparr>"
  have ap: "fst (mrfld_get_bufcfg (priv ?s) 101 ?s) = 0xff0c1d00"
    by (simp add: probe_get_bufcfg)
  have ad: "fst (mrfld_get_bufcfg (priv ?s) 37 ?s) = 0xff0c0d00"
    by (simp add: probe_get_bufcfg)
  have e0: "syscon_ret sample_env = 0" by (simp add: sample_env_def)
  have mp: "mem ?s 0xff0c1d00 = 0x12345678" and md: "mem ?s 0xff0c0d00 = 0x12345678"
    and b0: "bus ?s = []"
    by (simp_all add: sample_machine_def)
  have hp: "prop_pad_offset ?np = Some 101 \<and> (101::u32) \<noteq> - 1 \<and> prop_mode_func ?np = Some 2
      \<and> (2::u32) \<le> 7 \<and> syscon_ret sample_env = 0
      \<and> fst (mrfld_get_bufcfg (priv ?s) 101 ?s) = 0xff0c1d00 \<and> (0xff0c1d00::u32) \<noteq> 0"
    using ap e0 by simp
  have fp: "prop_protected ?np = Some True" by simp
  from cfg_pin_write_path [where n = ?np and e = sample_env and s = ?s and p = 101 and m = 2
      and a = "0xff0c1d00"] hp fp
  have "bus (snd (mrfld_pinctrl_cfg_pin sample_env ?np ?s))
          = bus ?s @ [Readl 0xff0c1d00,
              ScuIpc IPCMSG_INDIRECT_WRITE 0 ((mem ?s 0xff0c1d00 AND NOT 7) OR 2) 4 0 0xff0c1d00 0]"
    by blast
  then have p: "bus (snd (mrfld_pinctrl_cfg_pin sample_env ?np ?s))
          = [Readl 0xff0c1d00, ScuIpc IPCMSG_INDIRECT_WRITE 0 0x1234567A 4 0 0xff0c1d00 0]"
    by (simp only: mp b0) simp
  have hd: "prop_pad_offset ?nd = Some 37 \<and> (37::u32) \<noteq> - 1 \<and> prop_mode_func ?nd = Some 5
      \<and> (5::u32) \<le> 7 \<and> syscon_ret sample_env = 0
      \<and> fst (mrfld_get_bufcfg (priv ?s) 37 ?s) = 0xff0c0d00 \<and> (0xff0c0d00::u32) \<noteq> 0"
    using ad e0 by simp
  have fd: "prop_protected ?nd = None \<or> prop_protected ?nd = Some False" by simp
  from cfg_pin_write_path [where n = ?nd and e = sample_env and s = ?s and p = 37 and m = 5
      and a = "0xff0c0d00"] hd fd
  have "mrfld_pinctrl_cfg_pin sample_env ?nd ?s
          = (0, ?s\<lparr>mem := (mem ?s)(0xff0c0d00 := (mem ?s 0xff0c0d00 AND NOT 7) OR 5),
                  bus := bus ?s @ [Readl 0xff0c0d00,
                    Writel ((mem ?s 0xff0c0d00 AND NOT 7) OR 5) 0xff0c0d00]\<rparr>)"
    by blast
  then have "bus (snd (mrfld_pinctrl_cfg_pin sample_env ?nd ?s))
          = bus ?s @ [Readl 0xff0c0d00, Writel ((mem ?s 0xff0c0d00 AND NOT 7) OR 5) 0xff0c0d00]"
    by simp
  then have d: "bus (snd (mrfld_pinctrl_cfg_pin sample_env ?nd ?s))
          = [Readl 0xff0c0d00, Writel 0x1234567D 0xff0c0d00]"
    by (simp only: md b0) simp
  from p d show ?thesis by (rule conjI)
qed

text \<open>
  C9. For the same pin, mask, bits and state the two paths share the lookup:
  when it fails, both return its code and its state; when it yields the
  address \<open>a\<close>, both read \<open>a\<close>, and the value the protected path hands to the
  channel for \<open>a\<close> is the value \<open>(v & ~mask) | (bits & mask)\<close> that the direct
  path stores at \<open>a\<close>.
\<close>

theorem write_paths_agree:
  "(case mrfld_pinconfig_get_bufcfg e pin s of
      (Inl ret, s1) \<Rightarrow>
        mrfld_pinconfig e pin msk bits s = (ret, s1)
        \<and> mrfld_pinconfig_protected e pin msk bits s = (ret, s1)
    | (Inr a, s1) \<Rightarrow>
        bus (snd (mrfld_pinconfig e pin msk bits s))
          = bus s @ [Readl a, Writel ((mem s a AND NOT msk) OR (bits AND msk)) a]
        \<and> bus (snd (mrfld_pinconfig_protected e pin msk bits s))
          = bus s @ [Readl a,
               ScuIpc IPCMSG_INDIRECT_WRITE 0 ((mem s a AND NOT msk) OR (bits AND msk)) 4 0 a 0])"
proof (cases "mrfld_pinconfig_get_bufcfg e pin s")
  case (Pair r s1)
  with get_bufcfg_state [of e pin s] have s1: "bus s1 = bus s" "mem s1 = mem s"
    by (auto simp: pr_err_def)
  show ?thesis
  proof (cases r)
    case (Inl ret)
    with Pair show ?thesis by (simp add: pinconfig_failed)
  next
    case (Inr a)
    with Pair s1 show ?thesis
      by (simp add: mrfld_pinconfig_def mrfld_pinconfig_protected_def
          mrfld_pinconfig_read_and_update_def readl_def writel_def scu_ipc_raw_command_def Let_def)
  qed
qed

theorem write_paths_agree_witness:
  "bus (snd (mrfld_pinconfig sample_env 101 7 2 (sample_machine\<lparr>priv := probe_pinctrl 0xff0c0000\<rparr>)))
     = [Readl 0xff0c1d00, Writel 0x1234567A 0xff0c1d00]
   \<and> bus (snd (mrfld_pinconfig_protected sample_env 101 7 2
        (sample_machine\<lparr>priv := probe_pinctrl 0xff0c0000\<rparr>)))
     = [Readl 0xff0c1d00, ScuIpc IPCMSG_INDIRECT_WRITE 0 0x1234567A 4 0 0xff0c1d00 0]"
proof -
  let ?s = "sample_machine\<lparr>priv := probe_pinctrl 0xff0c0000\<rparr>"
  have ap: "fst (mrfld_get_bufcfg (priv ?s) 101 ?s) = 0xff0c1d00"
    by (simp add: probe_get_bufcfg)
  have e0: "syscon_ret sample_env = 0" by (simp add: sample_env_def)
  have f: "mrfld_pinconfig_get_bufcfg sample_env 101 ?s = (Inr 0xff0c1d00, ?s)"
    using e0 ap by (rule get_bufcfg_found) simp
  have mp: "mem ?s 0xff0c1d00 = 0x12345678" and b0: "bus ?s = []"
    by (simp_all add: sample_machine_def)
  from write_paths_agree [where e = sample_env and pin = 101 and s = ?s and msk = 7 and bits = 2]
  have "bus (snd (mrfld_pinconfig sample_env 101 7 2 ?s))
          = bus ?s @ [Readl 0xff0c1d00, Writel ((mem ?s 0xff0c1d00 AND NOT 7) OR (2 AND 7)) 0xff0c1d00]
        \<and> bus (snd (mrfld_pinconfig_protected sample_env 101 7 2 ?s))
          = bus ?s @ [Readl 0xff0c1d00,
               ScuIpc IPCMSG_INDIRECT_WRITE 0 ((mem ?s 0xff0c1d00 AND NOT 7) OR (2 AND 7)) 4 0 0xff0c1d00 0]"
    by (simp only: f prod.case sum.case)
  then show ?thesis by (simp only: mp b0) simp
qed

section \<open>The configuration pass\<close>

lemma probe_subnodes_append:
  "probe_subnodes e (xs @ ys) s = probe_subnodes e ys (probe_subnodes e xs s)"
  by (induction xs arbitrary: s) simp_all

text \<open>An entry without pad-offset adds one line to the console and nothing else.\<close>

lemma probe_subnode_missing:
  assumes "prop_pad_offset n = None"
  shows "probe_subnode e n s = s\<lparr>console := console s @ [InvalidPinCfg (of_offset n)]\<rparr>"
  using assms errno_nonzero(1)
  by (simp add: probe_subnode_def mrfld_pinctrl_cfg_pin_def ofnode_read_s32_default_def pr_err_def)

lemma probe_subnodes_all_missing:
  assumes "\<forall>n \<in> set nodes. prop_pad_offset n = None"
  shows "probe_subnodes e nodes s
           = s\<lparr>console := console s @ map (\<lambda>n. InvalidPinCfg (of_offset n)) nodes\<rparr>"
  using assms
proof (induction nodes arbitrary: s)
  case Nil
  show ?case by simp
next
  case (Cons n nodes)
  then show ?case by (simp add: probe_subnode_missing)
qed

text \<open>
  C7. The pass returns 0 for every list of entries and every outcome of the
  entries. It takes the entries in source order and attempts each one: entry
  \<open>i\<close> is processed in the state that the entries before it have left, and
  whatever its code, the entries after it are then processed from the state it
  leaves. A list in which every entry fails (no pad-offset) shows it on the
  console: one message per entry, in source order.
\<close>

theorem probe_best_effort:
  "fst (tangier_pinctrl_probe e nodes s) = 0
   \<and> (\<forall>i < length nodes.
        snd (tangier_pinctrl_probe e nodes s)
          = probe_subnodes e (drop (Suc i) nodes)
              (probe_subnode e (nodes ! i)
                (probe_subnodes e (take i nodes)
                  (s\<lparr>priv := probe_pinctrl (syscon_first_range e)\<rparr>))))
   \<and> ((\<forall>n \<in> set nodes. prop_pad_offset n = None) \<longrightarrow>
        console (snd (tangier_pinctrl_probe e nodes s))
          = console s @ map (\<lambda>n. InvalidPinCfg (of_offset n)) nodes)"
proof -
  let ?s1 = "s\<lparr>priv := probe_pinctrl (syscon_first_range e)\<rparr>"
  have ret: "fst (tangier_pinctrl_probe e nodes s) = 0"
    by (simp add: tangier_pinctrl_probe_def Let_def)
  have st: "snd (tangier_pinctrl_probe e nodes s) = probe_subnodes e nodes ?s1"
    by (simp add: tangier_pinctrl_probe_def Let_def)
  have each: "probe_subnodes e nodes ?s1
      = probe_subnodes e (drop (Suc i) nodes)
          (probe_subnode e (nodes ! i) (probe_subnodes e (take i nodes) ?s1))"
    if "i < length nodes" for i
  proof -
    from that have "nodes = take i nodes @ (nodes ! i # drop (Suc i) nodes)"
      by (simp add: id_take_nth_drop)
    then have "probe_subnodes e nodes ?s1
        = probe_subnodes e (take i nodes @ (nodes ! i # drop (Suc i) nodes)) ?s1"
      by simp
    then show ?thesis by (simp only: probe_subnodes_append probe_subnodes.simps)
  qed
  have fail: "console (snd (tangier_pinctrl_probe e nodes s))
          = console s @ map (\<lambda>n. InvalidPinCfg (of_offset n)) nodes"
    if "\<forall>n \<in> set nodes. prop_pad_offset n = None"
    by (simp add: st probe_subnodes_all_missing [OF that])
  from ret each fail show ?thesis by (simp add: st)
qed

theorem probe_best_effort_witness:
  "fst (tangier_pinctrl_probe sample_env
        [\<lparr>of_offset = 64, prop_pad_offset = None, prop_mode_func = Some 5, prop_protected = None\<rparr>,
         \<lparr>of_offset = 96, prop_pad_offset = None, prop_mode_func = None, prop_protected = None\<rparr>]
        sample_machine) = 0
   \<and> console (snd (tangier_pinctrl_probe sample_env
        [\<lparr>of_offset = 64, prop_pad_offset = None, prop_mode_func = Some 5, prop_protected = None\<rparr>,
         \<lparr>of_offset = 96, prop_pad_offset = None, prop_mode_func = None, prop_protected = None\<rparr>]
        sample_machine)) = [InvalidPinCfg 64, InvalidPinCfg 96]"
proof -
  let ?ns = "[\<lparr>of_offset = 64, prop_pad_offset = None, prop_mode_func = Some 5, prop_protected = None\<rparr>,
         \<lparr>of_offset = 96, prop_pad_offset = None, prop_mode_func = None, prop_protected = None\<rparr>]"
  have h: "\<forall>n \<in> set ?ns. prop_pad_offset n = None" by simp
  have c0: "console sample_machine = []" by (simp add: sample_machine_def)
  note t = probe_best_effort [where e = sample_env and nodes = ?ns and s = sample_machine]
  from t have a: "fst (tangier_pinctrl_probe sample_env ?ns sample_machine) = 0" by blast
  from t h have "console (snd (tangier_pinctrl_probe sample_env ?ns sample_machine))
          = console sample_machine @ map (\<lambda>n. InvalidPinCfg (of_offset n)) ?ns" by blast
  then have b: "console (snd (tangier_pinctrl_probe sample_env ?ns sample_machine))
          = [InvalidPinCfg 64, InvalidPinCfg 96]" by (simp only: c0) simp
  from a b show ?thesis by (rule conjI)
qed

end
